theory Spec2Isabelle
  imports Main "HOL-Library.Word"
begin

chapter \<open>The model\<close>

section \<open>Data model\<close>

text \<open>
  The SDK is TypeScript. Numbers that the code uses as counts, HTTP status codes and
  millisecond timestamps are modelled as \<open>int\<close> (every value that occurs is far below
  \<open>2^53\<close>, where JavaScript numbers are exact); strings are \<open>string\<close>; a value that may
  be \<open>undefined\<close> is an \<open>option\<close>.
\<close>

subsection \<open>types.ts: SleeperError\<close>

record 'd SleeperError =
  status :: int
  message :: string
  details :: "'d option"

subsection \<open>What axios hands to the response error interceptor\<close>

text \<open>
  The interceptor reads \<open>error.message\<close>, \<open>error.response?.status\<close> and
  \<open>error.response?.data\<close>. \<open>err_response = None\<close> is the case in which no response was
  received; \<open>err_message = None\<close> is an error object without a message.
\<close>

record 'd AxiosResponse =
  resp_status :: int
  resp_data :: 'd

record 'd AxiosError =
  err_message :: "string option"
  err_response :: "'d AxiosResponse option"

subsection \<open>http-client.ts: HttpClientConfig and the fields of HttpClient\<close>

record HttpClientConfig =
  cfg_baseURL :: "string option"
  cfg_timeout :: "int option"
  cfg_retries :: "int option"
  cfg_retryDelay :: "int option"

text \<open>
  \<open>baseURL\<close> and \<open>timeout\<close> are the two settings the constructor passes on to
  \<open>axios.create\<close>; the other fields are the class's own.
\<close>

record HttpClient =
  baseURL :: string
  timeout :: int
  retries :: int
  retryDelay :: int
  lastRequestTime :: int

definition minRequestInterval :: int where
  "minRequestInterval = 60"

definition new_HttpClient :: "HttpClientConfig \<Rightarrow> HttpClient" where
  "new_HttpClient config =
     \<lparr> baseURL = (case cfg_baseURL config of None \<Rightarrow> ''https://api.sleeper.app/v1'' | Some u \<Rightarrow> u),
       timeout = (case cfg_timeout config of None \<Rightarrow> 10000 | Some t \<Rightarrow> t),
       retries = (case cfg_retries config of None \<Rightarrow> 3 | Some r \<Rightarrow> r),
       retryDelay = (case cfg_retryDelay config of None \<Rightarrow> 1000 | Some d \<Rightarrow> d),
       lastRequestTime = 0 \<rparr>"

section \<open>The error classifier (response interceptor of setupInterceptors)\<close>

text \<open>
  \<open>x || d\<close> on a string that may be undefined: \<open>d\<close> when \<open>x\<close> is undefined or empty.
\<close>

definition or_string :: "string option \<Rightarrow> string \<Rightarrow> string" where
  "or_string x d = (case x of None \<Rightarrow> d | Some s \<Rightarrow> if s = [] then d else s)"

text \<open>\<open>error.response?.status\<close>: undefined when there is no response.\<close>

definition response_status :: "'d AxiosError \<Rightarrow> int option" where
  "response_status error = map_option resp_status (err_response error)"

definition responseErrorInterceptor :: "'d AxiosError \<Rightarrow> 'd SleeperError" where
  "responseErrorInterceptor error =
     (let sleeperError =
            \<lparr> status = (case response_status error of None \<Rightarrow> 0 | Some s \<Rightarrow> s),
              message = or_string (err_message error) ''Unknown error'',
              details = map_option resp_data (err_response error) \<rparr>
      in if response_status error = Some 429
         then sleeperError\<lparr>message := ''Rate limit exceeded. Please slow down your requests.''\<rparr>
         else if response_status error = Some 404
         then sleeperError\<lparr>message := ''Resource not found.''\<rparr>
         else if (case response_status error of None \<Rightarrow> False | Some s \<Rightarrow> 500 \<le> s)
         then sleeperError\<lparr>message := ''Sleeper API server error. Please try again later.''\<rparr>
         else sleeperError)"

section \<open>The runtime a client executes in\<close>

text \<open>
  Everything the code does beyond computing values is made explicit in a \<open>world\<close>: the
  client instance (whose \<open>lastRequestTime\<close> is mutable), the millisecond clock read by
  \<open>Date.now()\<close>, the number of requests handed to the network so far, and a log of the
  observable effects in the order in which they happen. A \<open>Slept\<close> entry is one call of
  \<open>sleep(ms)\<close>, tagged with the method that made it: the delay asked for, the clock
  value at the call and the clock value at which the timer is due. A \<open>Dispatch\<close> entry is
  one request leaving the request interceptor, with the clock value at that moment.
\<close>

datatype site = Pacer | Retry

datatype event = Slept site int int int | Dispatch int

record world =
  client :: HttpClient
  clock :: int
  sent :: nat
  trace :: "event list"

text \<open>
  The network is a parameter: \<open>respond net k rq\<close> is what comes back for request \<open>rq\<close>
  when it is the \<open>k\<close>-th request dispatched (a 2xx response with its body, or the error
  object axios rejects with), and \<open>latency net k\<close> is the time that exchange takes.
\<close>

datatype http_method = GET | POST | PUT | DELETE

type_synonym http_request = "http_method \<times> string"

datatype ('d, 'a) reply = Fulfilled 'a | Failed "'d AxiosError"

record ('d, 'a) network =
  respond :: "nat \<Rightarrow> http_request \<Rightarrow> ('d, 'a) reply"
  latency :: "nat \<Rightarrow> nat"

text \<open>
  \<open>sleep(ms)\<close> is \<open>setTimeout(resolve, ms)\<close> on Node (the code types the timer as
  \<open>NodeJS.Timeout\<close>). The timer waits for \<open>ms\<close> milliseconds when \<open>ms\<close> is from 1 to
  2147483647; for any other delay Node sets the delay to 1. The caller resumes when the
  timer is due; the log entry is written from the clock before and after.
\<close>

definition timerDelay :: "int \<Rightarrow> int" where
  "timerDelay ms = (if 1 \<le> ms \<and> ms \<le> 2147483647 then ms else 1)"

definition sleep :: "site \<Rightarrow> int \<Rightarrow> world \<Rightarrow> world" where
  "sleep s ms w =
     (let resumed = w\<lparr>clock := clock w + timerDelay ms\<rparr>
      in resumed\<lparr>trace := trace w @ [Slept s ms (clock w) (clock resumed)]\<rparr>)"

section \<open>The rate pacer (enforceRateLimit)\<close>

text \<open>
  \<open>enforceRateLimit\<close> has one suspension point, the \<open>await this.sleep(delay)\<close>. The
  code before it is \<open>pacerDelay\<close> (the delay to wait for, if any), the code after it is
  \<open>stampRequestTime\<close>.
\<close>

definition pacerDelay :: "world \<Rightarrow> int option" where
  "pacerDelay w =
     (let now = clock w;
          timeSinceLastRequest = now - lastRequestTime (client w)
      in if timeSinceLastRequest < minRequestInterval
         then Some (minRequestInterval - timeSinceLastRequest)
         else None)"

definition stampRequestTime :: "world \<Rightarrow> world" where
  "stampRequestTime w = w\<lparr>client := (client w)\<lparr>lastRequestTime := clock w\<rparr>\<rparr>"

text \<open>One caller running \<open>enforceRateLimit\<close> from start to end with nothing in between.\<close>

definition enforceRateLimit :: "world \<Rightarrow> world" where
  "enforceRateLimit w =
     (case pacerDelay w of
        None \<Rightarrow> stampRequestTime w
      | Some delay \<Rightarrow> stampRequestTime (sleep Pacer delay w))"

section \<open>One attempt: request interceptor, network, response interceptor\<close>

text \<open>
  The thunk that \<open>get\<close>, \<open>post\<close>, \<open>put\<close> and \<open>delete\<close> pass to \<open>executeWithRetry\<close> is
  one call of the axios instance: the request interceptor awaits \<open>enforceRateLimit\<close>,
  the request is dispatched (\<open>dispatch\<close>: it is counted and logged), the exchange with
  the server takes its time, and a rejection passes through the response error
  interceptor. The result is \<open>Inr\<close> the response body or \<open>Inl\<close> the classified error.
\<close>

definition dispatch :: "world \<Rightarrow> world" where
  "dispatch w = w\<lparr>sent := Suc (sent w), trace := trace w @ [Dispatch (clock w)]\<rparr>"

definition request :: "('d, 'a) network \<Rightarrow> http_request \<Rightarrow> world \<Rightarrow> ('d SleeperError + 'a) \<times> world" where
  "request net rq w =
     (let w1 = enforceRateLimit w;
          k = sent w1;
          w2 = dispatch w1;
          w3 = w2\<lparr>clock := clock w2 + int (latency net k)\<rparr>
      in case respond net k rq of
           Fulfilled data \<Rightarrow> (Inr data, w3)
         | Failed error \<Rightarrow> (Inl (responseErrorInterceptor error), w3))"

section \<open>The retry controller (executeWithRetry)\<close>

text \<open>
  A promise settles in one of three ways here: resolved with the body, rejected with a
  \<open>SleeperError\<close>, or rejected with \<open>undefined\<close> (the \<open>throw lastError!\<close> after the loop
  when no attempt was made).
\<close>

datatype ('d, 'a) outcome = Resolved 'a | Rejected "'d SleeperError" | RejectedUndefined

function executeWithRetry_loop ::
  "('d, 'a) network \<Rightarrow> http_request \<Rightarrow> nat \<Rightarrow> 'd SleeperError option \<Rightarrow> world
     \<Rightarrow> ('d, 'a) outcome \<times> world" where
  "executeWithRetry_loop net rq attempt lastError w =
     (if int attempt \<le> retries (client w) then
        (case request net rq w of
           (Inr data, w') \<Rightarrow> (Resolved data, w')
         | (Inl err, w') \<Rightarrow>
             if 400 \<le> status err \<and> status err < 500 \<and> status err \<noteq> 429 then (Rejected err, w')
             else if int attempt = retries (client w') then (Rejected err, w')
             else executeWithRetry_loop net rq (Suc attempt) (Some err)
                    (sleep Retry (retryDelay (client w') * 2 ^ attempt) w'))
      else (case lastError of
              Some err \<Rightarrow> (Rejected err, w)
            | None \<Rightarrow> (RejectedUndefined, w)))"
  by pat_completeness auto
termination
  apply (relation "measure (\<lambda>(net, rq, attempt, lastError, w). nat (retries (client w) + 1 - int attempt))")
   apply simp
  subgoal for net rq attempt lastError w x y a
    by (cases "respond net (sent (enforceRateLimit w)) rq")
      (auto simp: request_def dispatch_def enforceRateLimit_def stampRequestTime_def sleep_def
        Let_def split: option.splits)
  done

definition executeWithRetry :: "('d, 'a) network \<Rightarrow> http_request \<Rightarrow> world \<Rightarrow> ('d, 'a) outcome \<times> world" where
  "executeWithRetry net rq w = executeWithRetry_loop net rq 0 None w"

definition get :: "('d, 'a) network \<Rightarrow> string \<Rightarrow> world \<Rightarrow> ('d, 'a) outcome \<times> world" where
  "get net url w = executeWithRetry net (GET, url) w"

section \<open>Observing a run\<close>

text \<open>
  \<open>retry_log\<close> reads off the log what the retry controller did: one \<open>Attempt\<close> for every
  request dispatched and one \<open>Wait ms\<close> for every backoff sleep, in order. The pacer's own
  sleeps are left out. \<open>dispatch_times\<close> lists the clock values at which requests left.
\<close>

datatype retry_event = Attempt | Wait int

fun retry_log :: "event list \<Rightarrow> retry_event list" where
  "retry_log [] = []"
| "retry_log (Dispatch t # tr) = Attempt # retry_log tr"
| "retry_log (Slept Retry ms t t' # tr) = Wait ms # retry_log tr"
| "retry_log (Slept Pacer ms t t' # tr) = retry_log tr"

fun dispatch_times :: "event list \<Rightarrow> int list" where
  "dispatch_times [] = []"
| "dispatch_times (Dispatch t # tr) = t # dispatch_times tr"
| "dispatch_times (Slept s ms t' t'' # tr) = dispatch_times tr"

text \<open>A client just constructed from \<open>config\<close>, at clock value \<open>now\<close>.\<close>

definition fresh_world :: "HttpClientConfig \<Rightarrow> int \<Rightarrow> world" where
  "fresh_world config now = \<lparr> client = new_HttpClient config, clock = now, sent = 0, trace = [] \<rparr>"

text \<open>The error axios rejects with when the server answers with status \<open>s\<close>.\<close>

definition status_error :: "int \<Rightarrow> string AxiosError" where
  "status_error s =
     \<lparr> err_message = Some ''Request failed'',
       err_response = Some \<lparr> resp_status = s, resp_data = ''body'' \<rparr> \<rparr>"

section \<open>The query-string helper (buildQueryString)\<close>

text \<open>
  The keys and the string values of the parameters are JavaScript strings: sequences of
  16-bit code units, in which a surrogate may stand unpaired. \<open>ascii\<close> writes an ASCII
  text as such a string.
\<close>

type_synonym js_string = "16 word list"

definition ascii :: "string \<Rightarrow> js_string" where
  "ascii s = map (\<lambda>c. of_nat (of_char c)) s"

datatype js_error = URIError

text \<open>
  \<open>encodeURIComponent\<close> is a built-in of the language. It reads the string as code
  points (a high surrogate followed by a low one is one code point) and throws
  \<open>URIError\<close> on an unpaired surrogate. It leaves the unreserved characters (letters,
  digits and \<open>- _ . ! ~ * ' ( )\<close>) as they are and writes every other code point as its
  UTF-8 bytes, each as \<open>%\<close> followed by two upper-case hexadecimal digits. The result is
  ASCII text.
\<close>

fun code_points :: "js_string \<Rightarrow> nat list option" where
  "code_points [] = Some []"
| "code_points (u # us) =
     (if 0xD800 \<le> unat u \<and> unat u \<le> 0xDBFF then
        (case us of
           [] \<Rightarrow> None
         | v # vs \<Rightarrow>
             if 0xDC00 \<le> unat v \<and> unat v \<le> 0xDFFF
             then map_option ((#) (0x10000 + (unat u - 0xD800) * 0x400 + (unat v - 0xDC00)))
                    (code_points vs)
             else None)
      else if 0xDC00 \<le> unat u \<and> unat u \<le> 0xDFFF then None
      else map_option ((#) (unat u)) (code_points us))"

definition utf8 :: "nat \<Rightarrow> nat list" where
  "utf8 cp =
     (if cp < 0x80 then [cp]
      else if cp < 0x800 then [0xC0 + cp div 0x40, 0x80 + cp mod 0x40]
      else if cp < 0x10000 then [0xE0 + cp div 0x1000, 0x80 + cp div 0x40 mod 0x40, 0x80 + cp mod 0x40]
      else [0xF0 + cp div 0x40000, 0x80 + cp div 0x1000 mod 0x40, 0x80 + cp div 0x40 mod 0x40,
            0x80 + cp mod 0x40])"

definition unreserved_chars :: string where
  "unreserved_chars =
     ''ABCDEFGHIJKLMNOPQRSTUVWXYZabcdefghijklmnopqrstuvwxyz0123456789-_.!~*()'' @ [CHR 0x27]"

definition unreserved_char :: "nat \<Rightarrow> char option" where
  "unreserved_char cp = find (\<lambda>c. of_char c = cp) unreserved_chars"

definition hex_digit :: "nat \<Rightarrow> char" where
  "hex_digit n = ''0123456789ABCDEF'' ! n"

definition percent_encode :: "nat \<Rightarrow> string" where
  "percent_encode byte = [CHR ''%'', hex_digit (byte div 16), hex_digit (byte mod 16)]"

definition encode_code_point :: "nat \<Rightarrow> string" where
  "encode_code_point cp =
     (case unreserved_char cp of
        Some c \<Rightarrow> [c]
      | None \<Rightarrow> concat (map percent_encode (utf8 cp)))"

definition encodeURIComponent :: "js_string \<Rightarrow> js_error + string" where
  "encodeURIComponent s =
     (case code_points s of
        None \<Rightarrow> Inl URIError
      | Some cps \<Rightarrow> Inr (concat (map encode_code_point cps)))"

text \<open>
  \<open>well_formed s\<close>: no surrogate of \<open>s\<close> is unpaired. \<open>percent_encoded s\<close> is what
  \<open>encodeURIComponent\<close> returns for such a string.
\<close>

definition well_formed :: "js_string \<Rightarrow> bool" where
  "well_formed s = (code_points s \<noteq> None)"

definition percent_encoded :: "js_string \<Rightarrow> string" where
  "percent_encoded s = (case encodeURIComponent s of Inl e \<Rightarrow> [] | Inr encoded \<Rightarrow> encoded)"

text \<open>
  A value of type \<open>string | number | boolean | undefined\<close>. The type of numbers and the
  built-in that turns a number into a string (\<open>String(value)\<close> on a number) are
  parameters, so nothing is assumed about how a number is written.
\<close>

datatype 'n param_value = Str js_string | Num 'n | Bool bool | Undefined

definition String_of :: "('n \<Rightarrow> js_string) \<Rightarrow> 'n param_value \<Rightarrow> js_string" where
  "String_of numberToString value =
     (case value of
        Str s \<Rightarrow> s
      | Num n \<Rightarrow> numberToString n
      | Bool b \<Rightarrow> (if b then ascii ''true'' else ascii ''false'')
      | Undefined \<Rightarrow> ascii ''undefined'')"

text \<open>
  One instance of the two parameters: the integers from \<open>-(2^53 - 1)\<close> to \<open>2^53 - 1\<close>.
  Each of them is a JavaScript number, and the built-in writes it in plain decimal
  digits, with a minus sign when it is negative.
\<close>

typedef safe_integer = "{n :: int. \<bar>n\<bar> \<le> 9007199254740991}"
  by (rule exI [of _ 0]) simp

fun decimal :: "nat \<Rightarrow> string" where
  "decimal n =
     (if n < 10 then [''0123456789'' ! n]
      else decimal (n div 10) @ [''0123456789'' ! (n mod 10)])"

declare decimal.simps [simp del]

definition safe_integer_toString :: "safe_integer \<Rightarrow> js_string" where
  "safe_integer_toString x =
     (let n = Rep_safe_integer x
      in ascii (if n < 0 then CHR ''-'' # decimal (nat (- n)) else decimal (nat n)))"

text \<open>\<open>Array.prototype.join\<close>, and \<open>Array.prototype.map\<close> with a callback that may throw.\<close>

fun join :: "string \<Rightarrow> string list \<Rightarrow> string" where
  "join sep [] = []"
| "join sep [x] = x"
| "join sep (x # y # ys) = x @ sep @ join sep (y # ys)"

fun map_throwing :: "('a \<Rightarrow> 'e + 'b) \<Rightarrow> 'a list \<Rightarrow> 'e + 'b list" where
  "map_throwing f [] = Inr []"
| "map_throwing f (x # xs) =
     (case f x of
        Inl e \<Rightarrow> Inl e
      | Inr y \<Rightarrow> (case map_throwing f xs of Inl e \<Rightarrow> Inl e | Inr ys \<Rightarrow> Inr (y # ys)))"

text \<open>The callback of the \<open>map\<close>: the template \<open>encodeURIComponent(key)=encodeURIComponent(String(value))\<close>.\<close>

definition encode_entry :: "('n \<Rightarrow> js_string) \<Rightarrow> js_string \<times> 'n param_value \<Rightarrow> js_error + string" where
  "encode_entry numberToString entry =
     (case entry of (key, value) \<Rightarrow>
        (case encodeURIComponent key of
           Inl e \<Rightarrow> Inl e
         | Inr k \<Rightarrow>
             (case encodeURIComponent (String_of numberToString value) of
                Inl e \<Rightarrow> Inl e
              | Inr v \<Rightarrow> Inr (k @ ''='' @ v))))"

text \<open>
  The argument is the list \<open>Object.entries(params)\<close>: the keys with their values, in the
  mapping's iteration order. The result is \<open>Inr\<close> the returned string or \<open>Inl\<close> the error
  thrown.
\<close>

definition buildQueryString ::
  "('n \<Rightarrow> js_string) \<Rightarrow> (js_string \<times> 'n param_value) list \<Rightarrow> js_error + string" where
  "buildQueryString numberToString params =
     (case map_throwing (encode_entry numberToString)
             (filter (\<lambda>(_, value). value \<noteq> Undefined) params) of
        Inl e \<Rightarrow> Inl e
      | Inr pairs \<Rightarrow>
          (let filteredParams = join ''&'' pairs
           in Inr (if filteredParams \<noteq> [] then ''?'' @ filteredParams else [])))"

section \<open>Resource accessors that fetch and then filter\<close>

datatype Sport = NFL | NBA | LCS

fun sport_path :: "Sport \<Rightarrow> string" where
  "sport_path NFL = ''nfl''"
| "sport_path NBA = ''nba''"
| "sport_path LCS = ''lcs''"

text \<open>
  The fields of \<open>Player\<close> and \<open>DraftPick\<close> that the accessors below read. A field that may
  be undefined or null is an \<open>option\<close>, \<open>None\<close> in both cases. \<open>metadata_position\<close> is
  \<open>pick.metadata?.position\<close>.
\<close>

record Player =
  player_id :: string
  first_name :: string
  last_name :: string
  search_full_name :: "string option"
  position :: string
  fantasy_positions :: "string list"
  team :: "string option"
  player_status :: string
  years_exp :: "int option"
  search_rank :: "int option"

record DraftPick =
  pick_player_id :: string
  picked_by :: string
  roster_id :: int
  pick_round :: int
  pick_no :: int
  metadata_position :: "string option"
  is_keeper :: "bool option"

text \<open>
  An object parsed from JSON is modelled by its own entries in iteration order.
  \<open>Object.values\<close> takes the own values in that order. A property read \<open>obj[key]\<close> finds
  an own entry first and otherwise a member inherited from \<open>Object.prototype\<close>; it is
  undefined (\<open>None\<close>) only when the key names neither.
\<close>

type_synonym PlayersResponse = "(string \<times> Player) list"

definition Object_values :: "('k \<times> 'v) list \<Rightarrow> 'v list" where
  "Object_values obj = map snd obj"

datatype 'v member = Own 'v | Inherited string

definition object_prototype_names :: "string list" where
  "object_prototype_names =
     [''constructor'', ''__defineGetter__'', ''__defineSetter__'', ''hasOwnProperty'',
      ''__lookupGetter__'', ''__lookupSetter__'', ''isPrototypeOf'', ''propertyIsEnumerable'',
      ''toString'', ''valueOf'', ''__proto__'', ''toLocaleString'']"

definition get_property :: "(string \<times> 'v) list \<Rightarrow> string \<Rightarrow> 'v member option" where
  "get_property obj key =
     (case map_of obj key of
        Some v \<Rightarrow> Some (Own v)
      | None \<Rightarrow> if key \<in> set object_prototype_names then Some (Inherited key) else None)"

text \<open>
  \<open>Array.prototype.sort\<close> with a comparator is a built-in of the language: a stable sort,
  modelled as insertion sort. Whatever the comparator, the sort only rearranges the
  elements, and nothing more about it is used in the properties. \<open>truthy\<close> is the test
  \<open>a.search_rank && ...\<close> on an optional number: false when it is undefined or zero.
\<close>

fun insert_by :: "('a \<Rightarrow> 'a \<Rightarrow> int) \<Rightarrow> 'a \<Rightarrow> 'a list \<Rightarrow> 'a list" where
  "insert_by cmp x [] = [x]"
| "insert_by cmp x (y # ys) = (if cmp x y \<le> 0 then x # y # ys else y # insert_by cmp x ys)"

definition sort_by :: "('a \<Rightarrow> 'a \<Rightarrow> int) \<Rightarrow> 'a list \<Rightarrow> 'a list" where
  "sort_by cmp xs = foldr (insert_by cmp) xs []"

definition truthy :: "int option \<Rightarrow> bool" where
  "truthy r = (case r of None \<Rightarrow> False | Some n \<Rightarrow> n \<noteq> 0)"

definition bySearchRank :: "Player \<Rightarrow> Player \<Rightarrow> int" where
  "bySearchRank a b =
     (if truthy (search_rank a) \<and> truthy (search_rank b)
      then the (search_rank a) - the (search_rank b)
      else if truthy (search_rank a) then - 1
      else if truthy (search_rank b) then 1
      else 0)"

text \<open>
  The comparator of \<open>getPlayersByTeam\<close> goes on to \<open>positionPriority[position] || 999\<close>, a
  property read on an object literal: a number for the six own keys, 999 for a key that
  names nothing, and an inherited member (\<open>None\<close> here) for a key that names one. The
  difference with such a member is not a number, which the sort takes as 0.
\<close>

definition positionPriority :: "string \<Rightarrow> int option" where
  "positionPriority p =
     (case get_property [(''QB'', 1), (''RB'', 2), (''WR'', 3), (''TE'', 4), (''K'', 5), (''DEF'', 6)] p of
        Some (Own n) \<Rightarrow> Some n
      | Some (Inherited name) \<Rightarrow> None
      | None \<Rightarrow> Some 999)"

definition bySearchRankThenPosition :: "Player \<Rightarrow> Player \<Rightarrow> int" where
  "bySearchRankThenPosition a b =
     (if truthy (search_rank a) \<and> truthy (search_rank b)
      then the (search_rank a) - the (search_rank b)
      else if truthy (search_rank a) then - 1
      else if truthy (search_rank b) then 1
      else (case (positionPriority (position a), positionPriority (position b)) of
              (Some aPriority, Some bPriority) \<Rightarrow> aPriority - bPriority
            | _ \<Rightarrow> 0))"

text \<open>
  \<open>const x = await fetch; return f(x)\<close> in an \<open>async\<close> method: an \<open>await\<close> on a rejected
  promise rethrows, so the rejection of the fetch is the rejection of the method.
\<close>

definition and_then :: "('d, 'a) outcome \<times> world \<Rightarrow> ('a \<Rightarrow> 'b) \<Rightarrow> ('d, 'b) outcome \<times> world" where
  "and_then settled f =
     (case settled of
        (Resolved x, w') \<Rightarrow> (Resolved (f x), w')
      | (Rejected err, w') \<Rightarrow> (Rejected err, w')
      | (RejectedUndefined, w') \<Rightarrow> (RejectedUndefined, w'))"

definition getAllPlayers ::
  "('d, PlayersResponse) network \<Rightarrow> Sport \<Rightarrow> world \<Rightarrow> ('d, PlayersResponse) outcome \<times> world" where
  "getAllPlayers net sport w = get net (''/players/'' @ sport_path sport) w"

text \<open>
  The \<open>for\<close> loop that \<open>searchPlayersByName\<close>, \<open>getPlayersByPosition\<close>, \<open>getPlayersByTeam\<close>,
  \<open>getActivePlayers\<close> and \<open>getRookiePlayers\<close> each run over \<open>Object.values(allPlayers)\<close>:
  it stops at the limit and pushes the players that pass the method's test.
\<close>

fun matches_loop :: "('p \<Rightarrow> bool) \<Rightarrow> int \<Rightarrow> 'p list \<Rightarrow> 'p list \<Rightarrow> 'p list" where
  "matches_loop test limit [] matches = matches"
| "matches_loop test limit (player # rest) matches =
     (if limit \<le> int (length matches) then matches
      else if test player then matches_loop test limit rest (matches @ [player])
      else matches_loop test limit rest matches)"

text \<open>\<open>String.prototype.includes\<close>: the argument occurs as a contiguous part.\<close>

fun starts_with :: "string \<Rightarrow> string \<Rightarrow> bool" where
  "starts_with s [] = True"
| "starts_with [] (c # cs) = False"
| "starts_with (x # xs) (c # cs) = (x = c \<and> starts_with xs cs)"

fun string_includes :: "string \<Rightarrow> string \<Rightarrow> bool" where
  "string_includes [] part = (part = [])"
| "string_includes (x # xs) part = (starts_with (x # xs) part \<or> string_includes xs part)"

text \<open>
  The tests of the five methods. \<open>toLowerCase\<close> is a built-in of the language and a
  parameter here. Each method's \<open>limit\<close> is optional, with its own default.
\<close>

definition nameMatches :: "(string \<Rightarrow> string) \<Rightarrow> string \<Rightarrow> Player \<Rightarrow> bool" where
  "nameMatches toLowerCase searchTerm player =
     (let searchLower = toLowerCase searchTerm;
          fullName = toLowerCase (first_name player @ '' '' @ last_name player);
          searchFullName = (case search_full_name player of None \<Rightarrow> [] | Some s \<Rightarrow> toLowerCase s)
      in string_includes fullName searchLower
         \<or> string_includes searchFullName searchLower
         \<or> string_includes (toLowerCase (first_name player)) searchLower
         \<or> string_includes (toLowerCase (last_name player)) searchLower)"

definition searchPlayersByName ::
  "(string \<Rightarrow> string) \<Rightarrow> ('d, PlayersResponse) network \<Rightarrow> Sport \<Rightarrow> string \<Rightarrow> int option \<Rightarrow> world
     \<Rightarrow> ('d, Player list) outcome \<times> world" where
  "searchPlayersByName toLowerCase net sport searchTerm limit w =
     and_then (getAllPlayers net sport w)
       (\<lambda>allPlayers. sort_by bySearchRank
          (matches_loop (nameMatches toLowerCase searchTerm)
             (case limit of None \<Rightarrow> 10 | Some l \<Rightarrow> l) (Object_values allPlayers) []))"

definition getPlayersByPosition ::
  "('d, PlayersResponse) network \<Rightarrow> Sport \<Rightarrow> string \<Rightarrow> int option \<Rightarrow> world
     \<Rightarrow> ('d, Player list) outcome \<times> world" where
  "getPlayersByPosition net sport pos limit w =
     and_then (getAllPlayers net sport w)
       (\<lambda>allPlayers. sort_by bySearchRank
          (matches_loop (\<lambda>player. position player = pos \<or> pos \<in> set (fantasy_positions player))
             (case limit of None \<Rightarrow> 50 | Some l \<Rightarrow> l) (Object_values allPlayers) []))"

definition getPlayersByTeam ::
  "('d, PlayersResponse) network \<Rightarrow> Sport \<Rightarrow> string \<Rightarrow> int option \<Rightarrow> world
     \<Rightarrow> ('d, Player list) outcome \<times> world" where
  "getPlayersByTeam net sport team_name limit w =
     and_then (getAllPlayers net sport w)
       (\<lambda>allPlayers. sort_by bySearchRankThenPosition
          (matches_loop (\<lambda>player. team player = Some team_name)
             (case limit of None \<Rightarrow> 100 | Some l \<Rightarrow> l) (Object_values allPlayers) []))"

definition isActive :: "Player \<Rightarrow> bool" where
  "isActive player =
     (player_status player = ''Active''
      \<and> (case team player of None \<Rightarrow> False | Some t \<Rightarrow> t \<noteq> []))"

definition getActivePlayers ::
  "('d, PlayersResponse) network \<Rightarrow> Sport \<Rightarrow> int option \<Rightarrow> world
     \<Rightarrow> ('d, Player list) outcome \<times> world" where
  "getActivePlayers net sport limit w =
     and_then (getAllPlayers net sport w)
       (\<lambda>allPlayers. sort_by bySearchRank
          (matches_loop isActive
             (case limit of None \<Rightarrow> 1000 | Some l \<Rightarrow> l) (Object_values allPlayers) []))"

definition getRookiePlayers ::
  "('d, PlayersResponse) network \<Rightarrow> Sport \<Rightarrow> int option \<Rightarrow> world
     \<Rightarrow> ('d, Player list) outcome \<times> world" where
  "getRookiePlayers net sport limit w =
     and_then (getAllPlayers net sport w)
       (\<lambda>allPlayers. sort_by bySearchRank
          (matches_loop (\<lambda>player. years_exp player = Some 0 \<and> player_status player = ''Active'')
             (case limit of None \<Rightarrow> 100 | Some l \<Rightarrow> l) (Object_values allPlayers) []))"

text \<open>
  \<open>getPlayersByIds\<close> reads \<open>allPlayers[id]\<close> for every id and keeps what is not undefined.
\<close>

definition getPlayersByIds ::
  "('d, PlayersResponse) network \<Rightarrow> Sport \<Rightarrow> string list \<Rightarrow> world
     \<Rightarrow> ('d, Player member list) outcome \<times> world" where
  "getPlayersByIds net sport playerIds w =
     and_then (getAllPlayers net sport w)
       (\<lambda>allPlayers. map the (filter (\<lambda>player. player \<noteq> None)
                                  (map (\<lambda>id. get_property allPlayers id) playerIds)))"

definition getDraftPicks ::
  "('d, DraftPick list) network \<Rightarrow> string \<Rightarrow> world \<Rightarrow> ('d, DraftPick list) outcome \<times> world" where
  "getDraftPicks net draftId w = get net (''/draft/'' @ draftId @ ''/picks'') w"

definition getPicksByRound ::
  "('d, DraftPick list) network \<Rightarrow> string \<Rightarrow> int \<Rightarrow> world \<Rightarrow> ('d, DraftPick list) outcome \<times> world" where
  "getPicksByRound net draftId round_no w =
     and_then (getDraftPicks net draftId w) (filter (\<lambda>pick. pick_round pick = round_no))"

definition getPicksByRoster ::
  "('d, DraftPick list) network \<Rightarrow> string \<Rightarrow> int \<Rightarrow> world \<Rightarrow> ('d, DraftPick list) outcome \<times> world" where
  "getPicksByRoster net draftId rosterId w =
     and_then (getDraftPicks net draftId w) (filter (\<lambda>pick. roster_id pick = rosterId))"

definition getPicksByUser ::
  "('d, DraftPick list) network \<Rightarrow> string \<Rightarrow> string \<Rightarrow> world \<Rightarrow> ('d, DraftPick list) outcome \<times> world" where
  "getPicksByUser net draftId userId w =
     and_then (getDraftPicks net draftId w) (filter (\<lambda>pick. picked_by pick = userId))"

definition getPicksByPosition ::
  "('d, DraftPick list) network \<Rightarrow> string \<Rightarrow> string \<Rightarrow> world \<Rightarrow> ('d, DraftPick list) outcome \<times> world" where
  "getPicksByPosition net draftId pos w =
     and_then (getDraftPicks net draftId w) (filter (\<lambda>pick. metadata_position pick = Some pos))"

definition getKeeperPicks ::
  "('d, DraftPick list) network \<Rightarrow> string \<Rightarrow> world \<Rightarrow> ('d, DraftPick list) outcome \<times> world" where
  "getKeeperPicks net draftId w =
     and_then (getDraftPicks net draftId w) (filter (\<lambda>pick. is_keeper pick = Some True))"

section \<open>The SDK facade (SleeperSDK)\<close>

text \<open>
  The four services hold a reference to the SDK's one \<open>HttpClient\<close> and have no state of
  their own, so the instance is its client.
\<close>

record SleeperSDK =
  httpClient :: HttpClient

definition new_SleeperSDK :: "HttpClientConfig \<Rightarrow> SleeperSDK" where
  "new_SleeperSDK config = \<lparr> httpClient = new_HttpClient config \<rparr>"

definition getClientConfig :: "SleeperSDK \<Rightarrow> HttpClientConfig" where
  "getClientConfig sdk =
     \<lparr> cfg_baseURL = Some ''https://api.sleeper.app/v1'',
       cfg_timeout = Some 10000,
       cfg_retries = Some 3,
       cfg_retryDelay = Some 1000 \<rparr>"

text \<open>
  \<open>getEstimatedNFLWeek\<close> reads the clock through the built-in \<open>Date\<close>, in the local time
  zone. The two operations it uses are parameters: \<open>getFullYear cal t\<close> is the local year
  of the instant \<open>t\<close> (milliseconds since the epoch), and \<open>newDate cal y m d\<close> is the
  instant of local midnight on day \<open>d\<close> of month index \<open>m\<close> of year \<open>y\<close>.
\<close>

record calendar =
  getFullYear :: "int \<Rightarrow> int"
  newDate :: "int \<Rightarrow> int \<Rightarrow> int \<Rightarrow> int"

definition getEstimatedNFLWeek :: "calendar \<Rightarrow> int \<Rightarrow> int" where
  "getEstimatedNFLWeek cal now =
     (let year = getFullYear cal now;
          seasonStart = newDate cal year 8 7
      in if now < seasonStart then 1
         else (let diffTime = now - seasonStart;
                   diffWeeks = diffTime div (1000 * 60 * 60 * 24 * 7)
               in min (max (diffWeeks + 1) 1) 17))"

section \<open>Several callers on one client\<close>

text \<open>
  JavaScript runs one caller at a time and switches only at an \<open>await\<close>. A caller that
  enters \<open>enforceRateLimit\<close> runs \<open>pacerDelay\<close>; if there is nothing to wait for it stamps
  the request time and its request is dispatched, otherwise it sets a timer and yields.
  When the clock reaches a timer, that caller resumes after the \<open>await\<close>: it stamps the
  request time and its request is dispatched. \<open>pending\<close> holds the due times of the timers
  set and not yet fired, in the order in which they were set. When time passes, the
  timers that come due fire in the order of their due times, each at its due time (or
  at once when it is already overdue). The exchange with the server does not block the
  other callers, so it does not advance the clock here.
\<close>

datatype step = Call | Elapse int

record event_loop =
  state :: world
  pending :: "int list"

definition pacer_enter :: "event_loop \<Rightarrow> event_loop" where
  "pacer_enter l =
     (case pacerDelay (state l) of
        None \<Rightarrow> l\<lparr>state := dispatch (stampRequestTime (state l))\<rparr>
      | Some delay \<Rightarrow>
          l\<lparr>state := (state l)\<lparr>trace := trace (state l)
                       @ [Slept Pacer delay (clock (state l)) (clock (state l) + timerDelay delay)]\<rparr>,
            pending := pending l @ [clock (state l) + timerDelay delay]\<rparr>)"

definition pacer_resume :: "int \<Rightarrow> world \<Rightarrow> world" where
  "pacer_resume due w = dispatch (stampRequestTime (w\<lparr>clock := max (clock w) due\<rparr>))"

definition elapse :: "int \<Rightarrow> event_loop \<Rightarrow> event_loop" where
  "elapse ms l =
     (let until = clock (state l) + max 0 ms;
          due = sort (filter (\<lambda>t. t \<le> until) (pending l));
          w = fold pacer_resume due (state l)
      in \<lparr> state = w\<lparr>clock := until\<rparr>,
           pending = filter (\<lambda>t. \<not> t \<le> until) (pending l) \<rparr>)"

fun run :: "step list \<Rightarrow> event_loop \<Rightarrow> event_loop" where
  "run [] l = l"
| "run (Call # steps) l = run steps (pacer_enter l)"
| "run (Elapse ms # steps) l = run steps (elapse ms l)"

text \<open>The configuration \<open>{}\<close>: every setting left to its default.\<close>

definition default_config :: HttpClientConfig where
  "default_config = \<lparr> cfg_baseURL = None, cfg_timeout = None, cfg_retries = None, cfg_retryDelay = None \<rparr>"

section \<open>Pacing of a run\<close>

text \<open>
  \<open>paced ts\<close>: every two adjacent dispatch times are at least the minimum interval
  apart. \<open>pacing_invariant\<close> adds what the pacer relies on once a request has been
  dispatched: none was dispatched later than the recorded \<open>lastRequestTime\<close>, and the
  clock has not gone back behind it.
\<close>

definition paced :: "int list \<Rightarrow> bool" where
  "paced ts = successively (\<lambda>a b. a + minRequestInterval \<le> b) ts"

definition pacing_invariant :: "world \<Rightarrow> bool" where
  "pacing_invariant w =
     (paced (dispatch_times (trace w))
      \<and> (dispatch_times (trace w) = []
         \<or> last (dispatch_times (trace w)) \<le> lastRequestTime (client w)
           \<and> lastRequestTime (client w) \<le> clock w))"

text \<open>
  One caller issuing \<open>get\<close> after \<open>get\<close>, awaiting each before the next; \<open>idle\<close> is the
  time the caller lets pass before a request.
\<close>

fun sequential_gets :: "('d, 'a) network \<Rightarrow> (nat \<times> string) list \<Rightarrow> world \<Rightarrow> world" where
  "sequential_gets net [] w = w"
| "sequential_gets net ((idle, url) # rest) w =
     sequential_gets net rest (snd (get net url (w\<lparr>clock := clock w + int idle\<rparr>)))"

section \<open>Sample data\<close>


definition sample_quarterback :: Player where
  "sample_quarterback =
     \<lparr> player_id = ''4046'', first_name = ''Patrick'', last_name = ''Mahomes'',
       search_full_name = Some ''patrickmahomes'', position = ''QB'', fantasy_positions = [''QB''],
       team = Some ''KC'', player_status = ''Active'', years_exp = Some 8, search_rank = Some 3 \<rparr>"

definition sample_running_back :: Player where
  "sample_running_back =
     \<lparr> player_id = ''4034'', first_name = ''Christian'', last_name = ''McCaffrey'',
       search_full_name = Some ''christianmccaffrey'', position = ''RB'', fantasy_positions = [''RB''],
       team = Some ''SF'', player_status = ''Active'', years_exp = Some 8, search_rank = Some 1 \<rparr>"

definition sample_players :: PlayersResponse where
  "sample_players = [(''4046'', sample_quarterback), (''4034'', sample_running_back)]"

definition players_network :: "(string, PlayersResponse) network" where
  "players_network = \<lparr> respond = \<lambda>k rq. Fulfilled sample_players, latency = \<lambda>k. 25 \<rparr>"

chapter \<open>Properties\<close>

section \<open>The retry controller\<close>

declare executeWithRetry_loop.simps [simp del]

lemma retry_log_append: "retry_log (xs @ ys) = retry_log xs @ retry_log ys"
  by (induction xs rule: retry_log.induct) simp_all

lemma enforceRateLimit_fields:
  "sent (enforceRateLimit w) = sent w"
  "retries (client (enforceRateLimit w)) = retries (client w)"
  "retryDelay (client (enforceRateLimit w)) = retryDelay (client w)"
  "retry_log (trace (enforceRateLimit w)) = retry_log (trace w)"
  by (simp_all add: enforceRateLimit_def stampRequestTime_def sleep_def retry_log_append
      split: option.splits)

lemma request_fst:
  "fst (request net rq w) =
     (case respond net (sent w) rq of
        Fulfilled data \<Rightarrow> Inr data
      | Failed error \<Rightarrow> Inl (responseErrorInterceptor error))"
  by (simp add: request_def dispatch_def Let_def enforceRateLimit_fields split: reply.splits)

lemma request_snd:
  "sent (snd (request net rq w)) = Suc (sent w)"
  "retries (client (snd (request net rq w))) = retries (client w)"
  "retryDelay (client (snd (request net rq w))) = retryDelay (client w)"
  "retry_log (trace (snd (request net rq w))) = retry_log (trace w) @ [Attempt]"
  by (simp_all add: request_def dispatch_def Let_def enforceRateLimit_fields retry_log_append
      split: reply.splits)

lemma sleep_fields:
  "sent (sleep s ms w) = sent w"
  "retries (client (sleep s ms w)) = retries (client w)"
  "retryDelay (client (sleep s ms w)) = retryDelay (client w)"
  "retry_log (trace (sleep Retry ms w)) = retry_log (trace w) @ [Wait ms]"
  by (simp_all add: sleep_def retry_log_append)

lemma loop_fulfilled:
  assumes "int attempt \<le> retries (client w)"
    and "respond net (sent w) rq = Fulfilled data"
  shows "executeWithRetry_loop net rq attempt lastError w = (Resolved data, snd (request net rq w))"
proof -
  have "fst (request net rq w) = Inr data"
    using assms(2) by (simp add: request_fst)
  then obtain w' where "request net rq w = (Inr data, w')"
    by (metis prod.collapse)
  then show ?thesis
    using assms(1) by (subst executeWithRetry_loop.simps) simp
qed

lemma loop_terminal:
  assumes "int attempt \<le> retries (client w)"
    and "respond net (sent w) rq = Failed error"
    and "400 \<le> status (responseErrorInterceptor error)"
    and "status (responseErrorInterceptor error) < 500"
    and "status (responseErrorInterceptor error) \<noteq> 429"
  shows "executeWithRetry_loop net rq attempt lastError w =
           (Rejected (responseErrorInterceptor error), snd (request net rq w))"
proof -
  have "fst (request net rq w) = Inl (responseErrorInterceptor error)"
    using assms(2) by (simp add: request_fst)
  then obtain w' where "request net rq w = (Inl (responseErrorInterceptor error), w')"
    by (metis prod.collapse)
  then show ?thesis
    using assms(1,3,4,5) by (subst executeWithRetry_loop.simps) simp
qed

lemma loop_last:
  assumes "int attempt = retries (client w)"
    and "respond net (sent w) rq = Failed error"
  shows "executeWithRetry_loop net rq attempt lastError w =
           (Rejected (responseErrorInterceptor error), snd (request net rq w))"
proof -
  have "fst (request net rq w) = Inl (responseErrorInterceptor error)"
    using assms(2) by (simp add: request_fst)
  then obtain w' where rw: "request net rq w = (Inl (responseErrorInterceptor error), w')"
    by (metis prod.collapse)
  moreover have "retries (client (snd (request net rq w))) = retries (client w)"
    by (simp add: request_snd)
  ultimately show ?thesis
    using assms(1) by (subst executeWithRetry_loop.simps) auto
qed

lemma loop_retry:
  assumes "int attempt < retries (client w)"
    and "respond net (sent w) rq = Failed error"
    and "\<not> (400 \<le> status (responseErrorInterceptor error)
            \<and> status (responseErrorInterceptor error) < 500
            \<and> status (responseErrorInterceptor error) \<noteq> 429)"
  shows "executeWithRetry_loop net rq attempt lastError w =
           executeWithRetry_loop net rq (Suc attempt) (Some (responseErrorInterceptor error))
             (sleep Retry (retryDelay (client w) * 2 ^ attempt) (snd (request net rq w)))"
proof -
  have "fst (request net rq w) = Inl (responseErrorInterceptor error)"
    using assms(2) by (simp add: request_fst)
  then obtain w' where rw: "request net rq w = (Inl (responseErrorInterceptor error), w')"
    by (metis prod.collapse)
  moreover have "retries (client (snd (request net rq w))) = retries (client w)"
    "retryDelay (client (snd (request net rq w))) = retryDelay (client w)"
    by (simp_all add: request_snd)
  ultimately show ?thesis
    using assms(1,3) by (subst executeWithRetry_loop.simps) auto
qed

lemma rounds_Suc:
  "concat (map (\<lambda>k. [Attempt, Wait (d * 2 ^ k)]) [a..<a + Suc n]) =
     [Attempt, Wait (d * 2 ^ a)] @ concat (map (\<lambda>k. [Attempt, Wait (d * 2 ^ k)]) [Suc a..<Suc a + n])"
  by (simp add: upt_conv_Cons)

lemma loop_prefix:
  assumes "\<forall>j<n. \<exists>e. respond net (sent w + j) rq = Failed e
              \<and> \<not> (400 \<le> status (responseErrorInterceptor e)
                    \<and> status (responseErrorInterceptor e) < 500
                    \<and> status (responseErrorInterceptor e) \<noteq> 429)"
    and "int (a + n) \<le> retries (client w)"
  shows "\<exists>w' le'. executeWithRetry_loop net rq a le w = executeWithRetry_loop net rq (a + n) le' w'
            \<and> sent w' = sent w + n
            \<and> retries (client w') = retries (client w)
            \<and> retryDelay (client w') = retryDelay (client w)
            \<and> retry_log (trace w') = retry_log (trace w)
                 @ concat (map (\<lambda>k. [Attempt, Wait (retryDelay (client w) * 2 ^ k)]) [a..<a + n])"
  using assms
proof (induction n arbitrary: a le w)
  case 0
  then show ?case by auto
next
  case (Suc n)
  from Suc.prems(1) obtain e where e: "respond net (sent w) rq = Failed e"
    and nt: "\<not> (400 \<le> status (responseErrorInterceptor e)
                \<and> status (responseErrorInterceptor e) < 500
                \<and> status (responseErrorInterceptor e) \<noteq> 429)"
    by force
  let ?w1 = "sleep Retry (retryDelay (client w) * 2 ^ a) (snd (request net rq w))"
  have lt: "int a < retries (client w)"
    using Suc.prems(2) by simp
  have step: "executeWithRetry_loop net rq a le w =
                executeWithRetry_loop net rq (Suc a) (Some (responseErrorInterceptor e)) ?w1"
    using loop_retry [OF lt e nt] .
  have s1: "sent ?w1 = Suc (sent w)" "retries (client ?w1) = retries (client w)"
    "retryDelay (client ?w1) = retryDelay (client w)"
    "retry_log (trace ?w1) = retry_log (trace w) @ [Attempt, Wait (retryDelay (client w) * 2 ^ a)]"
    by (simp_all add: sleep_fields request_snd)
  have p1: "\<forall>j<n. \<exists>e. respond net (sent ?w1 + j) rq = Failed e
              \<and> \<not> (400 \<le> status (responseErrorInterceptor e)
                    \<and> status (responseErrorInterceptor e) < 500
                    \<and> status (responseErrorInterceptor e) \<noteq> 429)"
  proof (intro allI impI)
    fix j assume "j < n"
    then have "Suc j < Suc n" by simp
    with Suc.prems(1) show "\<exists>e. respond net (sent ?w1 + j) rq = Failed e
              \<and> \<not> (400 \<le> status (responseErrorInterceptor e)
                    \<and> status (responseErrorInterceptor e) < 500
                    \<and> status (responseErrorInterceptor e) \<noteq> 429)"
      unfolding s1(1) by (metis add_Suc_shift)
  qed
  have p2: "int (Suc a + n) \<le> retries (client ?w1)"
    using Suc.prems(2) s1(2) by simp
  from Suc.IH [OF p1 p2, of "Some (responseErrorInterceptor e)"]
  obtain w' le' where ih:
    "executeWithRetry_loop net rq (Suc a) (Some (responseErrorInterceptor e)) ?w1 =
       executeWithRetry_loop net rq (Suc a + n) le' w'"
    "sent w' = sent ?w1 + n"
    "retries (client w') = retries (client ?w1)"
    "retryDelay (client w') = retryDelay (client ?w1)"
    "retry_log (trace w') = retry_log (trace ?w1)
       @ concat (map (\<lambda>k. [Attempt, Wait (retryDelay (client ?w1) * 2 ^ k)]) [Suc a..<Suc a + n])"
    by blast
  have "executeWithRetry_loop net rq a le w = executeWithRetry_loop net rq (a + Suc n) le' w'"
    using step ih(1) by simp
  moreover have "sent w' = sent w + Suc n"
    using ih(2) s1(1) by simp
  moreover have "retries (client w') = retries (client w)" "retryDelay (client w') = retryDelay (client w)"
    using ih(3,4) s1(2,3) by simp_all
  moreover have "retry_log (trace w') = retry_log (trace w)
       @ concat (map (\<lambda>k. [Attempt, Wait (retryDelay (client w) * 2 ^ k)]) [a..<a + Suc n])"
    unfolding ih(5) s1(3,4) rounds_Suc by simp
  ultimately show ?case by blast
qed

lemma retryable_not_terminal:
  "s = 0 \<or> s = 429 \<or> 500 \<le> s \<Longrightarrow> \<not> (400 \<le> s \<and> s < 500 \<and> s \<noteq> (429::int))"
  by arith

text \<open>
  Claim C1. When every attempt of a request fails with a retryable classified error
  (status 0, 429 or at least 500), the loop makes exactly \<open>retries + 1\<close> attempts, with
  a backoff wait after each but the last, and then rejects with the classified error of
  the last attempt. The retry ceiling is a count, so it is taken to be non-negative.
\<close>

theorem exhausted_retries_surface_last_error:
  assumes nonneg: "0 \<le> retries (client w)"
    and fails: "\<forall>j \<le> nat (retries (client w)). \<exists>e. respond net (sent w + j) rq = Failed e
        \<and> (status (responseErrorInterceptor e) = 0
           \<or> status (responseErrorInterceptor e) = 429
           \<or> 500 \<le> status (responseErrorInterceptor e))"
  shows "\<exists>e w'. executeWithRetry net rq w = (Rejected (responseErrorInterceptor e), w')
           \<and> respond net (sent w + nat (retries (client w))) rq = Failed e
           \<and> sent w' = sent w + nat (retries (client w)) + 1
           \<and> retry_log (trace w') = retry_log (trace w)
                @ concat (map (\<lambda>k. [Attempt, Wait (retryDelay (client w) * 2 ^ k)])
                            [0..<nat (retries (client w))])
                @ [Attempt]"
proof -
  let ?n = "nat (retries (client w))"
  have pre: "\<forall>j<?n. \<exists>e. respond net (sent w + j) rq = Failed e
              \<and> \<not> (400 \<le> status (responseErrorInterceptor e)
                    \<and> status (responseErrorInterceptor e) < 500
                    \<and> status (responseErrorInterceptor e) \<noteq> 429)"
    using fails retryable_not_terminal by (metis less_imp_le_nat)
  have bound: "int (0 + ?n) \<le> retries (client w)"
    using nonneg by simp
  from loop_prefix [OF pre bound, of None]
  obtain wn le' where wn:
    "executeWithRetry_loop net rq 0 None w = executeWithRetry_loop net rq ?n le' wn"
    "sent wn = sent w + ?n"
    "retries (client wn) = retries (client w)"
    "retry_log (trace wn) = retry_log (trace w)
       @ concat (map (\<lambda>k. [Attempt, Wait (retryDelay (client w) * 2 ^ k)]) [0..<?n])"
    by auto
  from fails obtain e where e: "respond net (sent w + ?n) rq = Failed e"
    by blast
  have "int ?n = retries (client wn)"
    using nonneg wn(3) by simp
  moreover have "respond net (sent wn) rq = Failed e"
    using e wn(2) by simp
  ultimately have "executeWithRetry_loop net rq ?n le' wn
      = (Rejected (responseErrorInterceptor e), snd (request net rq wn))"
    by (rule loop_last)
  then have "executeWithRetry net rq w = (Rejected (responseErrorInterceptor e), snd (request net rq wn))"
    using wn(1) by (simp add: executeWithRetry_def)
  moreover have "sent (snd (request net rq wn)) = sent w + ?n + 1"
    using wn(2) by (simp add: request_snd)
  moreover have "retry_log (trace (snd (request net rq wn))) = retry_log (trace w)
                @ concat (map (\<lambda>k. [Attempt, Wait (retryDelay (client w) * 2 ^ k)]) [0..<?n])
                @ [Attempt]"
    using wn(4) by (simp add: request_snd)
  ultimately show ?thesis
    using e by blast
qed

text \<open>
  With \<open>retries = 2\<close>, \<open>retryDelay = 100\<close> and a server that always answers 503: three
  attempts, waits of 100 and 200, and the rejection carries status 503.
\<close>

theorem exhausted_retries_witness:
  "\<exists>w'. executeWithRetry \<lparr> respond = \<lambda>k rq. Failed (status_error 503), latency = \<lambda>k. 25 \<rparr>
          (GET, ''/state/nfl'')
          (fresh_world \<lparr> cfg_baseURL = None, cfg_timeout = None, cfg_retries = Some 2,
                          cfg_retryDelay = Some 100 \<rparr> 1700000000000)
        = (Rejected \<lparr> status = 503, message = ''Sleeper API server error. Please try again later.'',
                       details = Some ''body'' \<rparr>, w')
      \<and> sent w' = 3
      \<and> retry_log (trace w') = [Attempt, Wait 100, Attempt, Wait 200, Attempt]"
  using exhausted_retries_surface_last_error
    [of "fresh_world \<lparr> cfg_baseURL = None, cfg_timeout = None, cfg_retries = Some 2,
                          cfg_retryDelay = Some 100 \<rparr> 1700000000000"
        "\<lparr> respond = \<lambda>k rq. Failed (status_error 503), latency = \<lambda>k. 25 \<rparr>"
        "(GET, ''/state/nfl'')"]
  by (auto simp: fresh_world_def new_HttpClient_def status_error_def responseErrorInterceptor_def
      response_status_def or_string_def Let_def upt_rec numeral_2_eq_2)

lemma retried_prefix:
  assumes "\<forall>j<k. \<exists>e. respond net (sent w + j) rq = Failed e
        \<and> \<not> (400 \<le> status (responseErrorInterceptor e)
              \<and> status (responseErrorInterceptor e) < 500
              \<and> status (responseErrorInterceptor e) \<noteq> 429)"
    and "int k \<le> retries (client w)"
  shows "\<exists>wk le'. executeWithRetry net rq w = executeWithRetry_loop net rq k le' wk
            \<and> sent wk = sent w + k
            \<and> retries (client wk) = retries (client w)
            \<and> retry_log (trace wk) = retry_log (trace w)
                 @ concat (map (\<lambda>k. [Attempt, Wait (retryDelay (client w) * 2 ^ k)]) [0..<k])"
proof -
  have bound: "int (0 + k) \<le> retries (client w)"
    using assms(2) by simp
  from loop_prefix [OF assms(1) bound, of None] show ?thesis
    by (auto simp: executeWithRetry_def)
qed

text \<open>
  Claim C2. When an attempt fails with a classified status from 400 to 499 other than
  429, the request rejects with that error at once: the log ends with that attempt, so
  no backoff wait and no further attempt follow it. Attempt \<open>k\<close> is reached after \<open>k\<close>
  failures that were retried; \<open>k = 0\<close> is the case of a first response with such a status.
\<close>

theorem terminal_client_error_fails_at_once:
  assumes earlier: "\<forall>j<k. \<exists>e. respond net (sent w + j) rq = Failed e
        \<and> \<not> (400 \<le> status (responseErrorInterceptor e)
              \<and> status (responseErrorInterceptor e) < 500
              \<and> status (responseErrorInterceptor e) \<noteq> 429)"
    and bound: "int k \<le> retries (client w)"
    and this_one: "respond net (sent w + k) rq = Failed error"
    and terminal: "400 \<le> status (responseErrorInterceptor error)"
      "status (responseErrorInterceptor error) < 500"
      "status (responseErrorInterceptor error) \<noteq> 429"
  shows "\<exists>w'. executeWithRetry net rq w = (Rejected (responseErrorInterceptor error), w')
           \<and> sent w' = sent w + k + 1
           \<and> retry_log (trace w') = retry_log (trace w)
                @ concat (map (\<lambda>i. [Attempt, Wait (retryDelay (client w) * 2 ^ i)]) [0..<k])
                @ [Attempt]"
proof -
  from retried_prefix [OF earlier bound]
  obtain wk le' where wk:
    "executeWithRetry net rq w = executeWithRetry_loop net rq k le' wk"
    "sent wk = sent w + k"
    "retries (client wk) = retries (client w)"
    "retry_log (trace wk) = retry_log (trace w)
       @ concat (map (\<lambda>i. [Attempt, Wait (retryDelay (client w) * 2 ^ i)]) [0..<k])"
    by blast
  have "int k \<le> retries (client wk)"
    using bound wk(3) by simp
  moreover have "respond net (sent wk) rq = Failed error"
    using this_one wk(2) by simp
  ultimately have "executeWithRetry_loop net rq k le' wk
      = (Rejected (responseErrorInterceptor error), snd (request net rq wk))"
    using terminal by (rule loop_terminal)
  then show ?thesis
    using wk by (simp add: request_snd)
qed

text \<open>
  A first response of status 400 under the default configuration: one attempt, no wait,
  status 400.
\<close>

theorem terminal_client_error_witness:
  "\<exists>w'. executeWithRetry \<lparr> respond = \<lambda>k rq. Failed (status_error 400), latency = \<lambda>k. 25 \<rparr>
          (GET, ''/user/x'')
          (fresh_world \<lparr> cfg_baseURL = None, cfg_timeout = None, cfg_retries = None,
                          cfg_retryDelay = None \<rparr> 1700000000000)
        = (Rejected \<lparr> status = 400, message = ''Request failed'', details = Some ''body'' \<rparr>, w')
      \<and> sent w' = 1
      \<and> retry_log (trace w') = [Attempt]"
  using terminal_client_error_fails_at_once
    [of 0 "\<lparr> respond = \<lambda>k rq. Failed (status_error 400), latency = \<lambda>k. 25 \<rparr>"
        "fresh_world \<lparr> cfg_baseURL = None, cfg_timeout = None, cfg_retries = None,
                          cfg_retryDelay = None \<rparr> 1700000000000"
        "(GET, ''/user/x'')" "status_error 400"]
  by (auto simp: fresh_world_def new_HttpClient_def status_error_def responseErrorInterceptor_def
      response_status_def or_string_def Let_def)

text \<open>
  Claim C6. When attempt \<open>k\<close> (at most the retry ceiling, reached after \<open>k\<close> failures
  that were retried) gets a successful response, the request resolves to the body of
  that response and the log ends with that attempt: no further attempt is made.
\<close>

theorem success_short_circuits:
  assumes earlier: "\<forall>j<k. \<exists>e. respond net (sent w + j) rq = Failed e
        \<and> \<not> (400 \<le> status (responseErrorInterceptor e)
              \<and> status (responseErrorInterceptor e) < 500
              \<and> status (responseErrorInterceptor e) \<noteq> 429)"
    and bound: "int k \<le> retries (client w)"
    and this_one: "respond net (sent w + k) rq = Fulfilled data"
  shows "\<exists>w'. executeWithRetry net rq w = (Resolved data, w')
           \<and> sent w' = sent w + k + 1
           \<and> retry_log (trace w') = retry_log (trace w)
                @ concat (map (\<lambda>i. [Attempt, Wait (retryDelay (client w) * 2 ^ i)]) [0..<k])
                @ [Attempt]"
proof -
  from retried_prefix [OF earlier bound]
  obtain wk le' where wk:
    "executeWithRetry net rq w = executeWithRetry_loop net rq k le' wk"
    "sent wk = sent w + k"
    "retries (client wk) = retries (client w)"
    "retry_log (trace wk) = retry_log (trace w)
       @ concat (map (\<lambda>i. [Attempt, Wait (retryDelay (client w) * 2 ^ i)]) [0..<k])"
    by blast
  have "int k \<le> retries (client wk)"
    using bound wk(3) by simp
  moreover have "respond net (sent wk) rq = Fulfilled data"
    using this_one wk(2) by simp
  ultimately have "executeWithRetry_loop net rq k le' wk
      = (Resolved data, snd (request net rq wk))"
    by (rule loop_fulfilled)
  then show ?thesis
    using wk by (simp add: request_snd)
qed

text \<open>
  Four attempts allowed, the first answered with 503 and the second with success: two
  attempts, and the resolved value is the second response's body.
\<close>

theorem success_short_circuits_witness:
  "\<exists>w'. executeWithRetry
          \<lparr> respond = \<lambda>k rq. if k = 1 then Fulfilled ''payload'' else Failed (status_error 503),
            latency = \<lambda>k. 25 \<rparr>
          (GET, ''/state/nfl'')
          (fresh_world \<lparr> cfg_baseURL = None, cfg_timeout = None, cfg_retries = Some 3,
                          cfg_retryDelay = None \<rparr> 1700000000000)
        = (Resolved ''payload'', w')
      \<and> sent w' = 2
      \<and> retry_log (trace w') = [Attempt, Wait 1000, Attempt]"
  using success_short_circuits
    [of 1 "\<lparr> respond = \<lambda>k rq. if k = 1 then Fulfilled ''payload'' else Failed (status_error 503),
            latency = \<lambda>k. 25 \<rparr>"
        "fresh_world \<lparr> cfg_baseURL = None, cfg_timeout = None, cfg_retries = Some 3,
                          cfg_retryDelay = None \<rparr> 1700000000000"
        "(GET, ''/state/nfl'')" "''payload''"]
  by (auto simp: fresh_world_def new_HttpClient_def status_error_def responseErrorInterceptor_def
      response_status_def or_string_def Let_def)

section \<open>The error classifier\<close>

text \<open>
  Claim C4, as amended. The classified error has the received status, or 0 when no
  response was received; its details are the response body when a response was
  received and absent otherwise; its message is one of the three fixed texts exactly
  when the received status is 429, 404 or at least 500, and otherwise the raw failure
  message, or \<open>Unknown error\<close> when that message is empty or absent.
\<close>

theorem classified_error_fields:
  "status (responseErrorInterceptor error) =
     (case err_response error of None \<Rightarrow> 0 | Some r \<Rightarrow> resp_status r)
   \<and> details (responseErrorInterceptor error) =
     (case err_response error of None \<Rightarrow> None | Some r \<Rightarrow> Some (resp_data r))
   \<and> message (responseErrorInterceptor error) =
     (case err_response error of
        None \<Rightarrow> or_string (err_message error) ''Unknown error''
      | Some r \<Rightarrow>
          if resp_status r = 429 then ''Rate limit exceeded. Please slow down your requests.''
          else if resp_status r = 404 then ''Resource not found.''
          else if 500 \<le> resp_status r then ''Sleeper API server error. Please try again later.''
          else or_string (err_message error) ''Unknown error'')
   \<and> or_string (err_message error) ''Unknown error'' =
     (case err_message error of
        None \<Rightarrow> ''Unknown error''
      | Some m \<Rightarrow> if m = [] then ''Unknown error'' else m)"
  by (simp add: responseErrorInterceptor_def response_status_def or_string_def Let_def
      split: option.splits)

text \<open>
  Claim C4 as stated fails: a connection failure whose error object has an empty
  message is classified with the message \<open>Unknown error\<close>, not with the raw message.
\<close>

theorem classified_message_counterexample:
  "err_response \<lparr> err_message = Some [], err_response = (None :: string AxiosResponse option) \<rparr> = None
   \<and> Some (message (responseErrorInterceptor
              \<lparr> err_message = Some [], err_response = (None :: string AxiosResponse option) \<rparr>))
       \<noteq> err_message \<lparr> err_message = Some [], err_response = (None :: string AxiosResponse option) \<rparr>"
  by (simp add: responseErrorInterceptor_def response_status_def or_string_def Let_def)

section \<open>The query-string helper\<close>

lemma encodeURIComponent_cases:
  "encodeURIComponent s = (if well_formed s then Inr (percent_encoded s) else Inl URIError)"
  by (simp add: encodeURIComponent_def well_formed_def percent_encoded_def split: option.splits)

lemma encode_entry_cases:
  "encode_entry toStr (key, value) =
     (if well_formed key \<and> well_formed (String_of toStr value)
      then Inr (percent_encoded key @ ''='' @ percent_encoded (String_of toStr value))
      else Inl URIError)"
  by (simp add: encode_entry_def encodeURIComponent_cases)

lemma map_throwing_entries:
  "map_throwing (encode_entry toStr) entries =
     (if list_all (\<lambda>(key, value). well_formed key \<and> well_formed (String_of toStr value)) entries
      then Inr (map (\<lambda>(key, value). percent_encoded key @ ''='' @ percent_encoded (String_of toStr value))
                  entries)
      else Inl URIError)"
  by (induction entries) (auto simp: encode_entry_cases split: if_splits)

lemma join_not_empty: "xs \<noteq> [] \<Longrightarrow> hd xs \<noteq> [] \<Longrightarrow> join sep xs \<noteq> []"
  by (cases "(sep, xs)" rule: join.cases) simp_all

lemma pairs_not_empty:
  "entries \<noteq> [] \<Longrightarrow>
   join sep (map (\<lambda>(key, value). percent_encoded key @ ''='' @ percent_encoded (String_of toStr value))
               entries) \<noteq> []"
  by (rule join_not_empty) (auto simp: hd_map split: prod.splits)

lemma safe_integer_one: "Rep_safe_integer (Abs_safe_integer 1) = 1"
  by (simp add: Abs_safe_integer_inverse)

text \<open>
  Claim C7, as amended. \<open>buildQueryString\<close> drops the entries whose value is undefined.
  When no key and no stringified value that remains has an unpaired surrogate, it
  builds from the remaining entries, in order, \<open>key=value\<close> with both sides
  percent-encoded, and returns the empty string when no entry remains and otherwise \<open>?\<close>
  followed by the pairs joined with \<open>&\<close>; when one of them has an unpaired surrogate it
  throws \<open>URIError\<close>. This holds however numbers are written. On
  \<open>{a: 1, b: undefined, c: "x y"}\<close> the result is \<open>?a=1&c=x%20y\<close>.
\<close>

theorem buildQueryString_result:
  "buildQueryString toStr params =
     (if list_all (\<lambda>(key, value). well_formed key \<and> well_formed (String_of toStr value))
           (filter (\<lambda>(key, value). value \<noteq> Undefined) params)
      then Inr (if filter (\<lambda>(key, value). value \<noteq> Undefined) params = [] then []
                else ''?'' @ join ''&''
                  (map (\<lambda>(key, value). percent_encoded key @ ''='' @ percent_encoded (String_of toStr value))
                     (filter (\<lambda>(key, value). value \<noteq> Undefined) params)))
      else Inl URIError)
   \<and> buildQueryString safe_integer_toString
         [(ascii ''a'', Num (Abs_safe_integer 1)), (ascii ''b'', Undefined), (ascii ''c'', Str (ascii ''x y''))]
       = Inr ''?a=1&c=x%20y''"
proof
  show "buildQueryString toStr params =
     (if list_all (\<lambda>(key, value). well_formed key \<and> well_formed (String_of toStr value))
           (filter (\<lambda>(key, value). value \<noteq> Undefined) params)
      then Inr (if filter (\<lambda>(key, value). value \<noteq> Undefined) params = [] then []
                else ''?'' @ join ''&''
                  (map (\<lambda>(key, value). percent_encoded key @ ''='' @ percent_encoded (String_of toStr value))
                     (filter (\<lambda>(key, value). value \<noteq> Undefined) params)))
      else Inl URIError)"
    using pairs_not_empty [of "filter (\<lambda>(key, value). value \<noteq> Undefined) params" "''&''" toStr]
    by (simp add: buildQueryString_def map_throwing_entries Let_def)
  show "buildQueryString safe_integer_toString
         [(ascii ''a'', Num (Abs_safe_integer 1)), (ascii ''b'', Undefined), (ascii ''c'', Str (ascii ''x y''))]
       = Inr ''?a=1&c=x%20y''"
    by (simp add: buildQueryString_def encode_entry_def String_of_def safe_integer_toString_def
        safe_integer_one decimal.simps encodeURIComponent_def ascii_def encode_code_point_def
        unreserved_char_def unreserved_chars_def utf8_def percent_encode_def hex_digit_def Let_def)
qed

text \<open>
  Claim C7 as stated fails: for the mapping whose one key is the code unit \<open>D800\<close> (an unpaired
  surrogate) and the value \<open>true\<close>, \<open>buildQueryString\<close> returns no string at all; it throws
  \<open>URIError\<close>.
\<close>

theorem buildQueryString_lone_surrogate_counterexample:
  "buildQueryString safe_integer_toString [([0xD800], Bool True)] = Inl URIError"
  by (simp add: buildQueryString_def encode_entry_def encodeURIComponent_def)

section \<open>The SDK facade\<close>

text \<open>
  Claim C9. Whatever configuration the SDK is constructed with, \<open>getClientConfig\<close>
  returns the default values; the result does not depend on the configuration in
  effect in the client.
\<close>

theorem getClientConfig_returns_defaults:
  "getClientConfig (new_SleeperSDK config) =
     \<lparr> cfg_baseURL = Some ''https://api.sleeper.app/v1'', cfg_timeout = Some 10000,
       cfg_retries = Some 3, cfg_retryDelay = Some 1000 \<rparr>
   \<and> getClientConfig (new_SleeperSDK config) = getClientConfig (new_SleeperSDK config')
   \<and> retries (httpClient (new_SleeperSDK (config\<lparr>cfg_retries := Some 5\<rparr>))) = 5
   \<and> cfg_retries (getClientConfig (new_SleeperSDK (config\<lparr>cfg_retries := Some 5\<rparr>))) = Some 3"
  by (simp add: getClientConfig_def new_SleeperSDK_def new_HttpClient_def)

section \<open>The estimated week\<close>

text \<open>
  Claim C10. \<open>getEstimatedNFLWeek\<close> returns a week from 1 to 17: 1 before the season
  start (local midnight of September 7 of the current year), and from then on the
  number of whole weeks elapsed plus one, capped at 17.
\<close>

theorem estimated_week_range:
  "1 \<le> getEstimatedNFLWeek cal now \<and> getEstimatedNFLWeek cal now \<le> 17
   \<and> getEstimatedNFLWeek cal now =
       (if now < newDate cal (getFullYear cal now) 8 7 then 1
        else min ((now - newDate cal (getFullYear cal now) 8 7) div 604800000 + 1) 17)"
proof -
  let ?start = "newDate cal (getFullYear cal now) 8 7"
  have "0 \<le> (now - ?start) div 604800000" if "\<not> now < ?start"
    using that by (simp add: pos_imp_zdiv_nonneg_iff)
  then show ?thesis
    by (auto simp: getEstimatedNFLWeek_def Let_def)
qed

text \<open>
  In a process whose local year is 2025 and whose September 7 begins at
  1757203200000: July 1 and the first instant of the season are week 1, November 3 is
  week 9, December 31 is capped at week 17.
\<close>

lemma estimated_week_examples:
  "getEstimatedNFLWeek \<lparr> getFullYear = \<lambda>t. 2025, newDate = \<lambda>y m d. 1757203200000 \<rparr> 1751328000000 = 1"
  "getEstimatedNFLWeek \<lparr> getFullYear = \<lambda>t. 2025, newDate = \<lambda>y m d. 1757203200000 \<rparr> 1757203200000 = 1"
  "getEstimatedNFLWeek \<lparr> getFullYear = \<lambda>t. 2025, newDate = \<lambda>y m d. 1757203200000 \<rparr> 1762128000000 = 9"
  "getEstimatedNFLWeek \<lparr> getFullYear = \<lambda>t. 2025, newDate = \<lambda>y m d. 1757203200000 \<rparr> 1767139200000 = 17"
  by (simp_all add: getEstimatedNFLWeek_def Let_def)

section \<open>Fetch-then-filter accessors\<close>

lemma and_then_rejected:
  "fst settled = Rejected err \<Longrightarrow> and_then settled f = (Rejected err, snd settled)"
  by (cases settled) (simp add: and_then_def)

lemma and_then_resolved:
  "fst settled = Resolved x \<Longrightarrow> and_then settled f = (Resolved (f x), snd settled)"
  by (cases settled) (simp add: and_then_def)

lemma set_insert_by: "set (insert_by cmp x xs) = insert x (set xs)"
  by (induction xs) auto

lemma set_sort_by: "set (sort_by cmp xs) = set xs"
  by (induction xs) (simp_all add: sort_by_def set_insert_by)

lemma set_matches_loop:
  "set (matches_loop test limit players matches) \<subseteq> set matches \<union> {p \<in> set players. test p}"
  by (induction test limit players matches rule: matches_loop.induct) auto

lemma set_sorted_matches:
  "set (sort_by cmp (matches_loop test limit players [])) \<subseteq> {p \<in> set players. test p}"
  using set_matches_loop [of test limit players "[]"] by (simp add: set_sort_by)

lemma get_property_member:
  "get_property obj key = Some m \<Longrightarrow>
     m \<in> Own ` set (Object_values obj) \<union> Inherited ` set object_prototype_names"
  by (auto simp: get_property_def Object_values_def split: option.splits if_splits
      dest!: map_of_SomeD intro: rev_image_eqI)

lemma get_property_own:
  "key \<notin> set object_prototype_names \<Longrightarrow> get_property obj key = Some m \<Longrightarrow>
     m \<in> Own ` set (Object_values obj)"
  by (auto simp: get_property_def Object_values_def split: option.splits if_splits
      dest!: map_of_SomeD intro: rev_image_eqI)

text \<open>
  Every one of the eleven accessors that filter a fetched collection is rejected with
  the very error of its fetch, in the state the fetch left.
\<close>

lemma player_accessors_reject_with_the_fetch:
  assumes "fst (getAllPlayers net sport w) = Rejected err"
  shows "searchPlayersByName toLowerCase net sport searchTerm limit w
           = (Rejected err, snd (getAllPlayers net sport w))"
    and "getPlayersByPosition net sport pos limit w = (Rejected err, snd (getAllPlayers net sport w))"
    and "getPlayersByTeam net sport team_name limit w = (Rejected err, snd (getAllPlayers net sport w))"
    and "getActivePlayers net sport limit w = (Rejected err, snd (getAllPlayers net sport w))"
    and "getRookiePlayers net sport limit w = (Rejected err, snd (getAllPlayers net sport w))"
    and "getPlayersByIds net sport playerIds w = (Rejected err, snd (getAllPlayers net sport w))"
  using assms
  by (simp_all add: searchPlayersByName_def getPlayersByPosition_def getPlayersByTeam_def
      getActivePlayers_def getRookiePlayers_def getPlayersByIds_def and_then_rejected)

lemma pick_accessors_reject_with_the_fetch:
  assumes "fst (getDraftPicks net draftId w) = Rejected err"
  shows "getPicksByRound net draftId round_no w = (Rejected err, snd (getDraftPicks net draftId w))"
    and "getPicksByRoster net draftId rosterId w = (Rejected err, snd (getDraftPicks net draftId w))"
    and "getPicksByUser net draftId userId w = (Rejected err, snd (getDraftPicks net draftId w))"
    and "getPicksByPosition net draftId pos w = (Rejected err, snd (getDraftPicks net draftId w))"
    and "getKeeperPicks net draftId w = (Rejected err, snd (getDraftPicks net draftId w))"
  using assms
  by (simp_all add: getPicksByRound_def getPicksByRoster_def getPicksByUser_def
      getPicksByPosition_def getKeeperPicks_def and_then_rejected)

text \<open>
  When the fetch resolves, ten of them resolve to elements of the fetched collection
  that pass the method's filter.
\<close>

lemma player_accessors_keep_to_the_fetch:
  assumes "fst (getAllPlayers net sport w) = Resolved allPlayers"
  shows "\<exists>result. searchPlayersByName toLowerCase net sport searchTerm limit w
                     = (Resolved result, snd (getAllPlayers net sport w))
           \<and> set result \<subseteq> {p \<in> set (Object_values allPlayers). nameMatches toLowerCase searchTerm p}"
    and "\<exists>result. getPlayersByPosition net sport pos limit w
                     = (Resolved result, snd (getAllPlayers net sport w))
           \<and> set result \<subseteq> {p \<in> set (Object_values allPlayers).
                                position p = pos \<or> pos \<in> set (fantasy_positions p)}"
    and "\<exists>result. getPlayersByTeam net sport team_name limit w
                     = (Resolved result, snd (getAllPlayers net sport w))
           \<and> set result \<subseteq> {p \<in> set (Object_values allPlayers). team p = Some team_name}"
    and "\<exists>result. getActivePlayers net sport limit w
                     = (Resolved result, snd (getAllPlayers net sport w))
           \<and> set result \<subseteq> {p \<in> set (Object_values allPlayers). isActive p}"
    and "\<exists>result. getRookiePlayers net sport limit w
                     = (Resolved result, snd (getAllPlayers net sport w))
           \<and> set result \<subseteq> {p \<in> set (Object_values allPlayers).
                                years_exp p = Some 0 \<and> player_status p = ''Active''}"
  using assms
  by (simp_all add: searchPlayersByName_def getPlayersByPosition_def getPlayersByTeam_def
      getActivePlayers_def getRookiePlayers_def and_then_resolved set_sorted_matches)

lemma pick_accessors_keep_to_the_fetch:
  assumes "fst (getDraftPicks net draftId w) = Resolved picks"
  shows "\<exists>result. getPicksByRound net draftId round_no w
                     = (Resolved result, snd (getDraftPicks net draftId w))
           \<and> set result \<subseteq> {pick \<in> set picks. pick_round pick = round_no}"
    and "\<exists>result. getPicksByRoster net draftId rosterId w
                     = (Resolved result, snd (getDraftPicks net draftId w))
           \<and> set result \<subseteq> {pick \<in> set picks. roster_id pick = rosterId}"
    and "\<exists>result. getPicksByUser net draftId userId w
                     = (Resolved result, snd (getDraftPicks net draftId w))
           \<and> set result \<subseteq> {pick \<in> set picks. picked_by pick = userId}"
    and "\<exists>result. getPicksByPosition net draftId pos w
                     = (Resolved result, snd (getDraftPicks net draftId w))
           \<and> set result \<subseteq> {pick \<in> set picks. metadata_position pick = Some pos}"
    and "\<exists>result. getKeeperPicks net draftId w
                     = (Resolved result, snd (getDraftPicks net draftId w))
           \<and> set result \<subseteq> {pick \<in> set picks. is_keeper pick = Some True}"
  using assms
  by (auto simp: getPicksByRound_def getPicksByRoster_def getPicksByUser_def
      getPicksByPosition_def getKeeperPicks_def and_then_resolved)

text \<open>
  \<open>getPlayersByIds\<close> resolves to members of the fetched collection and to members
  inherited from \<open>Object.prototype\<close>; to the former alone when no requested id names an
  inherited member.
\<close>

lemma getPlayersByIds_result:
  assumes "fst (getAllPlayers net sport w) = Resolved allPlayers"
  shows "\<exists>result. getPlayersByIds net sport playerIds w
                     = (Resolved result, snd (getAllPlayers net sport w))
           \<and> set result \<subseteq> Own ` set (Object_values allPlayers)
                              \<union> Inherited ` set object_prototype_names
           \<and> (set playerIds \<inter> set object_prototype_names = {}
                \<longrightarrow> set result \<subseteq> Own ` set (Object_values allPlayers))"
proof -
  let ?result = "map the (filter (\<lambda>player. player \<noteq> None)
                            (map (\<lambda>id. get_property allPlayers id) playerIds))"
  have "getPlayersByIds net sport playerIds w = (Resolved ?result, snd (getAllPlayers net sport w))"
    using assms by (simp add: getPlayersByIds_def and_then_resolved)
  moreover have "set ?result \<subseteq> Own ` set (Object_values allPlayers)
                                  \<union> Inherited ` set object_prototype_names"
  proof
    fix m assume "m \<in> set ?result"
    then obtain key where "get_property allPlayers key = Some m"
      by auto
    then show "m \<in> Own ` set (Object_values allPlayers) \<union> Inherited ` set object_prototype_names"
      by (rule get_property_member)
  qed
  moreover have "set ?result \<subseteq> Own ` set (Object_values allPlayers)"
    if "set playerIds \<inter> set object_prototype_names = {}"
  proof
    fix m assume "m \<in> set ?result"
    then obtain key where "key \<in> set playerIds" "get_property allPlayers key = Some m"
      by auto
    with that show "m \<in> Own ` set (Object_values allPlayers)"
      by (auto intro: get_property_own)
  qed
  ultimately show ?thesis
    by blast
qed

text \<open>
  Claim C8 says that every accessor that fetches and then filters is rejected with the
  error of its fetch and otherwise resolves to elements of the fetched collection only.
  \<open>getPlayersByIds\<close>, documented to return the players found, breaks the second half:
  on a fetch that resolves to the two sample players, the ids \<open>4046\<close> and \<open>constructor\<close>
  give the quarterback and the member \<open>constructor\<close> inherited from \<open>Object.prototype\<close>,
  which is not in the fetched collection.
\<close>

theorem getPlayersByIds_returns_an_inherited_member:
  "fst (getAllPlayers players_network NFL (fresh_world default_config 1700000000000))
     = Resolved sample_players
   \<and> fst (getPlayersByIds players_network NFL [''4046'', ''constructor'']
            (fresh_world default_config 1700000000000))
     = Resolved [Own sample_quarterback, Inherited ''constructor'']
   \<and> Inherited ''constructor'' \<notin> set (map Own (Object_values sample_players))"
proof -
  let ?w = "fresh_world default_config 1700000000000"
  have le: "int 0 \<le> retries (client ?w)"
    by (simp add: fresh_world_def default_config_def new_HttpClient_def)
  have "respond players_network (sent ?w) (GET, ''/players/'' @ sport_path NFL) = Fulfilled sample_players"
    by (simp add: players_network_def)
  from loop_fulfilled [OF le this, of None]
  have fetched: "fst (getAllPlayers players_network NFL ?w) = Resolved sample_players"
    by (simp add: getAllPlayers_def get_def executeWithRetry_def)
  then have "fst (getPlayersByIds players_network NFL [''4046'', ''constructor''] ?w)
      = Resolved [Own sample_quarterback, Inherited ''constructor'']"
    by (simp add: getPlayersByIds_def and_then_resolved get_property_def sample_players_def
        object_prototype_names_def)
  with fetched show ?thesis
    by auto
qed

section \<open>The rate pacer\<close>

text \<open>
  One caller at a time: whatever the configuration, the server's answers and the idle
  times, the requests of a caller that awaits each \<open>get\<close> before issuing the next
  (retries included) leave at least the minimum interval apart.
\<close>

lemma dispatch_times_append: "dispatch_times (xs @ ys) = dispatch_times xs @ dispatch_times ys"
  by (induction xs rule: dispatch_times.induct) simp_all

lemma timerDelay_positive: "1 \<le> timerDelay ms"
  by (simp add: timerDelay_def)


lemma enforceRateLimit_pacing:
  "dispatch_times (trace (enforceRateLimit w)) = dispatch_times (trace w)"
  "lastRequestTime (client (enforceRateLimit w)) = clock (enforceRateLimit w)"
  "clock w \<le> clock (enforceRateLimit w)"
  "lastRequestTime (client w) \<le> clock w
     \<Longrightarrow> clock (enforceRateLimit w) = max (clock w) (lastRequestTime (client w) + minRequestInterval)"
  using timerDelay_positive [of "minRequestInterval - (clock w - lastRequestTime (client w))"]
  by (auto simp: enforceRateLimit_def pacerDelay_def stampRequestTime_def sleep_def
      dispatch_times_append Let_def timerDelay_def minRequestInterval_def split: if_splits)

lemma request_pacing:
  "dispatch_times (trace (snd (request net rq w))) = dispatch_times (trace w) @ [clock (enforceRateLimit w)]"
  "lastRequestTime (client (snd (request net rq w))) = clock (enforceRateLimit w)"
  "clock (snd (request net rq w)) = clock (enforceRateLimit w) + int (latency net (sent w))"
  by (simp_all add: request_def dispatch_def Let_def dispatch_times_append enforceRateLimit_pacing
      enforceRateLimit_fields split: reply.splits)

lemma request_keeps_pacing:
  assumes "pacing_invariant w"
  shows "pacing_invariant (snd (request net rq w))"
proof (cases "dispatch_times (trace w) = []")
  case True
  then show ?thesis
    by (simp add: pacing_invariant_def paced_def request_pacing)
next
  case False
  with assms have inv: "paced (dispatch_times (trace w))"
    "last (dispatch_times (trace w)) \<le> lastRequestTime (client w)"
    "lastRequestTime (client w) \<le> clock w"
    by (simp_all add: pacing_invariant_def)
  from enforceRateLimit_pacing(4) [OF inv(3)]
  have "lastRequestTime (client w) + minRequestInterval \<le> clock (enforceRateLimit w)"
    by simp
  with inv(1,2) False show ?thesis
    by (simp add: pacing_invariant_def paced_def request_pacing successively_append_iff)
qed

lemma sleep_keeps_pacing:
  "pacing_invariant w \<Longrightarrow> pacing_invariant (sleep s ms w)"
  using timerDelay_positive [of ms]
  by (auto simp: pacing_invariant_def sleep_def dispatch_times_append Let_def)

lemma loop_keeps_pacing:
  "pacing_invariant w \<Longrightarrow> pacing_invariant (snd (executeWithRetry_loop net rq a le w))"
proof (induction net rq a le w rule: executeWithRetry_loop.induct)
  case (1 net rq attempt lastError w)
  show ?case
  proof (cases "int attempt \<le> retries (client w)")
    case False
    then have "executeWithRetry_loop net rq attempt lastError w =
                 (case lastError of Some err \<Rightarrow> (Rejected err, w) | None \<Rightarrow> (RejectedUndefined, w))"
      by (subst executeWithRetry_loop.simps) simp
    then show ?thesis
      using "1.prems" by (simp split: option.splits)
  next
    case True
    obtain r w' where rw: "request net rq w = (r, w')"
      by (cases "request net rq w")
    then have w': "w' = snd (request net rq w)" by simp
    have inv': "pacing_invariant w'"
      unfolding w' using "1.prems" by (rule request_keeps_pacing)
    show ?thesis
    proof (cases r)
      case (Inr data)
      then have "executeWithRetry_loop net rq attempt lastError w = (Resolved data, w')"
        using True rw by (subst executeWithRetry_loop.simps) simp
      then show ?thesis
        using inv' by simp
    next
      case (Inl err)
      show ?thesis
      proof (cases "(400 \<le> status err \<and> status err < 500 \<and> status err \<noteq> 429)
                     \<or> int attempt = retries (client w')")
        case True
        then have "executeWithRetry_loop net rq attempt lastError w = (Rejected err, w')"
          using \<open>int attempt \<le> retries (client w)\<close> rw Inl
          by (subst executeWithRetry_loop.simps) auto
        then show ?thesis
          using inv' by simp
      next
        case False
        let ?w1 = "sleep Retry (retryDelay (client w') * 2 ^ attempt) w'"
        from False have nt: "\<not> (400 \<le> status err \<and> status err < 500 \<and> status err \<noteq> 429)"
          and ne: "int attempt \<noteq> retries (client w')" by auto
        have "pacing_invariant ?w1"
          using inv' by (rule sleep_keeps_pacing)
        from "1.IH" [OF True rw [symmetric] Inl nt ne this]
        have "pacing_invariant (snd (executeWithRetry_loop net rq (Suc attempt) (Some err) ?w1))" .
        moreover have "executeWithRetry_loop net rq attempt lastError w
                = executeWithRetry_loop net rq (Suc attempt) (Some err) ?w1"
          using True rw Inl nt ne by (subst executeWithRetry_loop.simps) auto
        ultimately show ?thesis
          by simp
      qed
    qed
  qed
qed

lemma sequential_gets_keep_pacing:
  "pacing_invariant w \<Longrightarrow> pacing_invariant (sequential_gets net reqs w)"
proof (induction reqs arbitrary: w)
  case Nil
  then show ?case by simp
next
  case (Cons r reqs)
  obtain idle url where r: "r = (idle, url)"
    by (cases r)
  have "pacing_invariant (w\<lparr>clock := clock w + int idle\<rparr>)"
    using Cons.prems by (auto simp: pacing_invariant_def)
  then have "pacing_invariant (snd (get net url (w\<lparr>clock := clock w + int idle\<rparr>)))"
    by (simp add: get_def executeWithRetry_def loop_keeps_pacing)
  then show ?case
    unfolding r by (simp add: Cons.IH)
qed

lemma sequential_requests_are_paced:
  "paced (dispatch_times (trace (sequential_gets net reqs (fresh_world config now))))"
proof -
  have "pacing_invariant (fresh_world config now)"
    by (simp add: pacing_invariant_def paced_def fresh_world_def)
  then have "pacing_invariant (sequential_gets net reqs (fresh_world config now))"
    by (rule sequential_gets_keep_pacing)
  then show ?thesis
    by (simp add: pacing_invariant_def)
qed

section \<open>Backoff timing\<close>







section \<open>Several callers on one client\<close>

text \<open>
  Claim C5 says that any two adjacent dispatches through one client are at least the
  minimum interval apart. The pacer does compute the elapsed time, wait for the rest
  of the interval and stamp the time on resuming, but the check and the stamp are
  separated by the \<open>await\<close>: three callers entering at the same instant on a fresh
  client (as the three \<open>get\<close>s under \<open>Promise.all\<close> in \<open>getLeagueData\<close> do) are dispatched at
  \<open>T\<close>, \<open>T + 60\<close> and \<open>T + 60\<close>; the second and the third leave together.
\<close>

theorem concurrent_callers_share_a_slot:
  "dispatch_times (trace (state (run [Call, Call, Call, Elapse 60]
       \<lparr> state = fresh_world default_config 1700000000000, pending = [] \<rparr>)))
     = [1700000000000, 1700000000060, 1700000000060]
   \<and> \<not> paced (dispatch_times (trace (state (run [Call, Call, Call, Elapse 60]
       \<lparr> state = fresh_world default_config 1700000000000, pending = [] \<rparr>))))"
  by (simp add: paced_def pacer_enter_def pacer_resume_def elapse_def pacerDelay_def
      timerDelay_def stampRequestTime_def dispatch_def fresh_world_def default_config_def
      new_HttpClient_def minRequestInterval_def Let_def)

end
